theory Spec2Isabelle
  imports Complex_Main "HOL-Library.Word" "HOL-Library.Sublist"
begin

unbundle bit_operations_syntax

section \<open>corsairmi: reading telemetry from Corsair RMi/HXi power supplies\<close>

text \<open>
  A shallow embedding of \<^verbatim>\<open>corsairmi.c\<close>. Bytes and machine integers are words of
  their C width; \<^verbatim>\<open>int\<close> is the 32-bit int of the Linux targets the program is written
  for (it includes \<^verbatim>\<open>linux/hidraw.h\<close>). System calls are functions of an explicit
  device state; \<^verbatim>\<open>exit(1)\<close> is the left injection of a sum.
\<close>

type_synonym u8 = "8 word"
type_synonym u16 = "16 word"
type_synonym u32 = "32 word"

subsection \<open>The numeric codec: \<^verbatim>\<open>mkv\<close>\<close>

text \<open>
  \<^verbatim>\<open>int p = (int)(int16_t)v16 >> 11;\<close> The cast to \<^verbatim>\<open>int16_t\<close> reinterprets the word as
  signed, the cast to \<^verbatim>\<open>int\<close> sign-extends it to 32 bits (\<open>scast\<close>), and \<^verbatim>\<open>>>\<close> on a
  signed int is the arithmetic shift (as gcc and clang define it).
\<close>

definition mkv_p :: "u16 \<Rightarrow> int" where
  "mkv_p v16 = sint (signed_drop_bit 11 (scast v16 :: 32 word))"

text \<open>
  \<^verbatim>\<open>int v = ((int)v16 << 21) >> 21;\<close> The cast zero-extends the unsigned word to 32 bits
  (\<open>ucast\<close>), the left shift keeps the low 32 bits, the right shift is arithmetic.
  (ISO C leaves the left shift undefined once bit 10 of \<open>v16\<close> is set; gcc and clang
  shift the bits out, and the model follows them.)
\<close>

definition mkv_v :: "u16 \<Rightarrow> int" where
  "mkv_v v16 = sint (signed_drop_bit 21 (push_bit 21 (ucast v16 :: 32 word)))"

text \<open>
  \<^verbatim>\<open>return (double)v * pow(2.0, p);\<close> The double is modelled by the real number it
  denotes: \<open>v\<close> has at most eleven significant bits and \<open>p\<close> lies between \<open>-16\<close> and
  \<open>15\<close> (lemma \<open>mkv_exact\<close> below), so the conversion, the power of two and the
  product are all exactly representable and no rounding takes place.
\<close>

definition mkv :: "u16 \<Rightarrow> real" where
  "mkv v16 = real_of_int (mkv_v v16) * 2 powi (mkv_p v16)"

text \<open>
  The specification's wording, for comparison with \<open>mkv\<close>: the value of an \<open>n\<close>-bit
  field, sign-extended.
\<close>

definition sign_extend :: "nat \<Rightarrow> int \<Rightarrow> int" where
  "sign_extend n x = (if 2 ^ (n - 1) \<le> x then x - 2 ^ n else x)"

definition spec_exponent :: "u16 \<Rightarrow> int" where
  "spec_exponent raw = sign_extend 5 ((uint raw div 2 ^ 11) mod 2 ^ 5)"

definition spec_mantissa :: "u16 \<Rightarrow> int" where
  "spec_mantissa raw = sign_extend 11 (uint raw mod 2 ^ 11)"

subsection \<open>The environment: system calls on the hidraw node\<close>

text \<open>
  \<^verbatim>\<open>struct hidraw_devinfo\<close> of \<^verbatim>\<open>linux/hidraw.h\<close>: \<^verbatim>\<open>__u32 bustype; __s16 vendor;
  __s16 product;\<close>. The two identifiers are signed 16-bit fields, read with \<open>sint\<close>.
\<close>

record hidraw_devinfo =
  bustype :: u32
  vendor :: "16 word"
  product :: "16 word"

text \<open>
  The system calls the program makes, as functions. \<open>'d\<close> is the state of the device
  behind the file descriptor. \<open>os_write fd buf d\<close> is \<^verbatim>\<open>write(fd, buf, length buf)\<close>:
  its return value and the new device state. \<open>os_read fd n d\<close> is \<^verbatim>\<open>read(fd, buf_r, n)\<close>:
  its return value, the contents of the \<open>n\<close>-byte array \<^verbatim>\<open>buf_r\<close> after the call and the
  new device state. \<open>os_ioctl fd\<close> is \<^verbatim>\<open>ioctl(fd, HIDIOCGRAWINFO, &info)\<close>: its return
  value and \<^verbatim>\<open>info\<close> after the call. \<open>os_open name\<close> is \<^verbatim>\<open>open(name, O_RDWR)\<close>.
  Return values are \<^verbatim>\<open>ssize_t\<close> and \<^verbatim>\<open>int\<close>; they are only compared, so they are \<open>int\<close>.
\<close>

record 'd os =
  os_open :: "string \<Rightarrow> int"
  os_ioctl :: "int \<Rightarrow> int \<times> hidraw_devinfo"
  os_write :: "int \<Rightarrow> u8 list \<Rightarrow> 'd \<Rightarrow> int \<times> 'd"
  os_read :: "int \<Rightarrow> nat \<Rightarrow> 'd \<Rightarrow> int \<times> u8 list \<times> 'd"

text \<open>
  What the process does that can be observed from outside, in program order: the reports
  it hands to \<^verbatim>\<open>write\<close>, and the lines it prints on standard output. A line keeps the
  label (the format string with its arguments) and the value printed; the rendering of
  \<^verbatim>\<open>%5.1f\<close>, \<^verbatim>\<open>%u\<close> and the padding are not modelled.
\<close>

datatype line =
    StrLine string "u8 list"
  | U32Line string u32 u32 u32
  | RegLine string "u8 list" real

datatype event = Sent "u8 list" | Printed line

record 'd world =
  dev :: 'd
  trace :: "event list"

text \<open>
  The ways the program stops with \<^verbatim>\<open>exit(1)\<close> inside \<^verbatim>\<open>send_recv_cmd\<close>, each with what
  its message on standard error carries: the return value of the failed call; for a
  short read the bytes handed to \<^verbatim>\<open>dump\<close>; for an unexpected response the two bytes
  received, the three bytes of the command, and the dumped response. \<open>Unterminated\<close> is
  not an exit of the source: it stands for \<^verbatim>\<open>printf("%s")\<close> running past the end of its
  buffer, which is undefined in C.
\<close>

datatype failure =
    WriteFailed int
  | ReadFailed int "u8 list"
  | UnexpectedResponse u8 u8 u8 u8 u8 "u8 list"
  | Unterminated

text \<open>Statements in sequence: after \<^verbatim>\<open>exit(1)\<close> nothing else runs.\<close>

definition and_then ::
  "('w \<Rightarrow> (failure + 'a) \<times> 'w) \<Rightarrow> ('a \<Rightarrow> 'w \<Rightarrow> (failure + 'b) \<times> 'w) \<Rightarrow> 'w \<Rightarrow> (failure + 'b) \<times> 'w"
where
  "and_then m f w = (case m w of (Inl e, w') \<Rightarrow> (Inl e, w') | (Inr a, w') \<Rightarrow> f a w')"

subsection \<open>The report framer: \<^verbatim>\<open>send_recv_cmd\<close>\<close>

text \<open>\<^verbatim>\<open>memcpy(dst, src, n)\<close> on byte arrays: the first \<open>n\<close> bytes of \<open>dst\<close> are replaced.\<close>

definition memcpy :: "u8 list \<Rightarrow> u8 list \<Rightarrow> nat \<Rightarrow> u8 list" where
  "memcpy dst src n = take n src @ drop n dst"

text \<open>
  \<^verbatim>\<open>buf\<close> is \<open>None\<close> for \<^verbatim>\<open>NULL\<close>, otherwise the bytes of the object it points to; the
  result is that object after the call. The caller guarantees that the object has room
  for \<^verbatim>\<open>buf_size\<close> bytes.
\<close>

definition send_recv_cmd ::
  "'d os \<Rightarrow> int \<Rightarrow> u8 \<Rightarrow> u8 \<Rightarrow> u8 \<Rightarrow> u8 list option \<Rightarrow> nat \<Rightarrow> 'd world
    \<Rightarrow> (failure + u8 list option) \<times> 'd world"
where
  "send_recv_cmd os fd b0 b1 b2 buf buf_size w =
    (let buf_w = (replicate 65 0)[1 := b0, 2 := b1, 3 := b2];
         (ret, d1) = os_write os fd buf_w (dev w);
         w1 = w\<lparr>dev := d1, trace := trace w @ [Sent buf_w]\<rparr>
     in if ret \<noteq> 65 then (Inl (WriteFailed ret), w1)
        else
          let (ret, buf_r, d2) = os_read os fd 64 d1;
              w2 = w1\<lparr>dev := d2\<rparr>
          in if ret \<noteq> 64 then
               (Inl (ReadFailed ret (if ret > 0 then take (nat ret) buf_r else [])), w2)
             else if buf_r ! 0 \<noteq> b0 \<or> buf_r ! 1 \<noteq> b1 then
               (Inl (UnexpectedResponse (buf_r ! 0) (buf_r ! 1) b0 b1 b2 buf_r), w2)
             else if buf \<noteq> None \<and> buf_size > 0 then
               (let n = (if buf_size > 64 - 2 then 64 - 2 else buf_size)
                in (Inr (map_option (\<lambda>b. memcpy b (drop 2 buf_r) n) buf), w2))
             else (Inr buf, w2))"

subsection \<open>Register access\<close>

definition read_reg ::
  "'d os \<Rightarrow> int \<Rightarrow> u8 \<Rightarrow> u8 list option \<Rightarrow> nat \<Rightarrow> 'd world
    \<Rightarrow> (failure + u8 list option) \<times> 'd world"
where
  "read_reg os fd reg buf buf_size = send_recv_cmd os fd 0x03 reg 0x00 buf buf_size"

text \<open>
  \<^verbatim>\<open>read_reg16\<close> and \<^verbatim>\<open>read_reg32\<close> pass the address of an integer as \<^verbatim>\<open>buf\<close>, so the
  payload bytes land in the integer's object representation and the value read back
  depends on the byte order of the host (the source marks both with
  \<^verbatim>\<open>// FIXME: big endian host\<close>).
\<close>

datatype byte_order = LittleEndian | BigEndian

fun load_le :: "u8 list \<Rightarrow> 'a::len word" where
  "load_le [] = 0"
| "load_le (b # bs) = ucast b + 256 * load_le bs"

definition load_uint :: "byte_order \<Rightarrow> u8 list \<Rightarrow> 'a::len word" where
  "load_uint host bs = load_le (case host of LittleEndian \<Rightarrow> bs | BigEndian \<Rightarrow> rev bs)"

text \<open>The object \<^verbatim>\<open>buf\<close> pointed to, after a call that returned \<open>r\<close> for it.\<close>

definition stored :: "u8 list \<Rightarrow> u8 list option \<Rightarrow> u8 list" where
  "stored old r = (case r of None \<Rightarrow> old | Some b \<Rightarrow> b)"

definition result :: "'a \<Rightarrow> 'w \<Rightarrow> (failure + 'a) \<times> 'w" where
  "result a w = (Inr a, w)"

text \<open>
  \<^verbatim>\<open>*v\<close> is uninitialised in every caller. Both of its bytes are overwritten
  (\<^verbatim>\<open>sizeof(*v)\<close> is at most 62), so the model starts it from zero bytes.
\<close>

definition read_reg16 ::
  "byte_order \<Rightarrow> 'd os \<Rightarrow> int \<Rightarrow> u8 \<Rightarrow> 'd world \<Rightarrow> (failure + u16) \<times> 'd world"
where
  "read_reg16 host os fd reg =
    and_then (send_recv_cmd os fd 0x03 reg 0x00 (Some [0, 0]) 2)
      (\<lambda>r. result (load_uint host (stored [0, 0] r)))"

definition read_reg32 ::
  "byte_order \<Rightarrow> 'd os \<Rightarrow> int \<Rightarrow> u8 \<Rightarrow> 'd world \<Rightarrow> (failure + u32) \<times> 'd world"
where
  "read_reg32 host os fd reg =
    and_then (send_recv_cmd os fd 0x03 reg 0x00 (Some [0, 0, 0, 0]) 4)
      (\<lambda>r. result (load_uint host (stored [0, 0, 0, 0] r)))"

subsection \<open>Printing\<close>

definition print_line :: "line \<Rightarrow> 'd world \<Rightarrow> (failure + unit) \<times> 'd world" where
  "print_line l w = (Inr (), w\<lparr>trace := trace w @ [Printed l]\<rparr>)"

text \<open>
  \<^verbatim>\<open>printf("...'%s'\n", name)\<close> reads \<^verbatim>\<open>name\<close> up to its first zero byte. When the
  array holds none, the read runs past its end.
\<close>

definition c_string :: "u8 list \<Rightarrow> u8 list option" where
  "c_string buf = (if 0 \<in> set buf then Some (takeWhile (\<lambda>c. c \<noteq> 0) buf) else None)"

definition print_str :: "string \<Rightarrow> u8 list \<Rightarrow> 'd world \<Rightarrow> (failure + unit) \<times> 'd world" where
  "print_str label buf w =
    (case c_string buf of
       None \<Rightarrow> (Inl Unterminated, w)
     | Some s \<Rightarrow> print_line (StrLine label s) w)"

text \<open>\<^verbatim>\<open>printf("...%u (%dd. %dh)\n", v32, v32 / (24*60*60), v32 / (60*60) % 24)\<close>\<close>

definition print_u32 :: "string \<Rightarrow> u32 \<Rightarrow> 'd world \<Rightarrow> (failure + unit) \<times> 'd world" where
  "print_u32 label v32 =
    print_line (U32Line label v32 (v32 div (24 * 60 * 60)) (v32 div (60 * 60) mod 24))"

text \<open>
  \<^verbatim>\<open>print_std_reg(fd, reg, fmt, ...)\<close>: \<open>args\<close> are the variadic arguments (the rail
  index, where there is one).
\<close>

definition print_std_reg ::
  "byte_order \<Rightarrow> 'd os \<Rightarrow> int \<Rightarrow> u8 \<Rightarrow> string \<Rightarrow> u8 list \<Rightarrow> 'd world
    \<Rightarrow> (failure + unit) \<times> 'd world"
where
  "print_std_reg host os fd reg fmt args =
    and_then (read_reg16 host os fd reg) (\<lambda>val. print_line (RegLine fmt args (mkv val)))"

subsection \<open>Device gating: \<^verbatim>\<open>try_open_device\<close>\<close>

definition products :: "u16 list" where
  "products =
    [0x1c0a, 0x1c0b, 0x1c0c, 0x1c0d, 0x1c04, 0x1c05, 0x1c06, 0x1c07, 0x1c08, 0x1c1e]"

text \<open>
  The search loop over \<^verbatim>\<open>products\<close>. In \<^verbatim>\<open>info.product == products[i]\<close> both sides are
  promoted to \<^verbatim>\<open>int\<close>: the signed field by sign extension, the \<^verbatim>\<open>uint16_t\<close> entry by
  zero extension.
\<close>

fun find_product :: "16 word \<Rightarrow> u16 list \<Rightarrow> bool" where
  "find_product p [] = False"
| "find_product p (x # xs) = (if sint p = uint x then True else find_product p xs)"

text \<open>
  The result is the file descriptor, or \<open>-1\<close>. \<^verbatim>\<open>report_errors\<close> only selects whether
  messages go to standard error; they are not modelled, and neither is \<^verbatim>\<open>close\<close>.
\<close>

definition try_open_device :: "'d os \<Rightarrow> string \<Rightarrow> bool \<Rightarrow> int" where
  "try_open_device os name report_errors =
    (let fd = os_open os name
     in if fd = - 1 then - 1
        else
          let (ret, info) = os_ioctl os fd;
              found =
                (if ret \<noteq> 0 then False
                 else if sint (vendor info) \<noteq> 0x1b1c then False
                 else find_product (product info) products)
          in if \<not> found then - 1 else fd)"

subsection \<open>The telemetry session: \<^verbatim>\<open>main\<close>\<close>

text \<open>The body of the loop over the three output rails.\<close>

definition rail_body ::
  "byte_order \<Rightarrow> 'd os \<Rightarrow> int \<Rightarrow> u8 \<Rightarrow> 'd world \<Rightarrow> (failure + unit) \<times> 'd world"
where
  "rail_body host os fd osel =
    and_then (send_recv_cmd os fd 0x02 0x00 osel None 0) (\<lambda>_.
    and_then (print_std_reg host os fd 0x8b ''output%u volts'' [osel]) (\<lambda>_.
    and_then (print_std_reg host os fd 0x8c ''output%u amps'' [osel]) (\<lambda>_.
    print_std_reg host os fd 0x96 ''output%u watts'' [osel])))"

text \<open>\<^verbatim>\<open>for (osel = 0; osel < 3; osel++)\<close>, entered at \<open>osel\<close>; \<open>osel\<close> is a \<^verbatim>\<open>uint8_t\<close>.\<close>

function rail_loop ::
  "byte_order \<Rightarrow> 'd os \<Rightarrow> int \<Rightarrow> u8 \<Rightarrow> 'd world \<Rightarrow> (failure + unit) \<times> 'd world"
where
  "rail_loop host os fd osel w =
    (if osel < 3 then
       (case rail_body host os fd osel w of
          (Inl e, w') \<Rightarrow> (Inl e, w')
        | (Inr u, w') \<Rightarrow> rail_loop host os fd (osel + 1) w')
     else (Inr (), w))"
  by pat_completeness auto
termination
proof (relation "measure (\<lambda>(host, os, fd, osel, w). 3 - unat osel)")
  show "wf (measure (\<lambda>(host, os, fd, osel, w). 3 - unat osel))"
    by simp
next
  fix host :: byte_order and os :: "'d os" and fd :: int and osel :: u8
    and w w' :: "'d world"
  assume "osel < 3"
  then have "unat osel < 3"
    by (simp add: word_less_nat_alt)
  then have "unat (osel + 1) = unat osel + 1"
    by (simp add: unat_word_ariths)
  with \<open>unat osel < 3\<close>
  show "((host, os, fd, osel + 1, w'), (host, os, fd, osel, w))
          \<in> measure (\<lambda>(host, os, fd, osel, w). 3 - unat osel)"
    by simp
qed

declare rail_loop.simps [simp del]

text \<open>
  Lines 269 to 298 of \<^verbatim>\<open>main\<close>, once a device is open. \<open>name\<close> is the 63-byte array
  \<^verbatim>\<open>char name[63]\<close> with whatever it holds at that point.
\<close>

definition session ::
  "byte_order \<Rightarrow> 'd os \<Rightarrow> int \<Rightarrow> u8 list \<Rightarrow> 'd world \<Rightarrow> (failure + unit) \<times> 'd world"
where
  "session host os fd name =
    and_then (send_recv_cmd os fd 0xfe 0x03 0x00 (Some (name[62 := 0])) 62) (\<lambda>r1.
    and_then (print_str ''name'' (stored (name[62 := 0]) r1)) (\<lambda>_.
    and_then (read_reg os fd 0x99 (Some (stored (name[62 := 0]) r1)) 62) (\<lambda>r2.
    and_then (print_str ''vendor'' (stored (stored (name[62 := 0]) r1) r2)) (\<lambda>_.
    and_then (read_reg os fd 0x9a (Some (stored (stored (name[62 := 0]) r1) r2)) 62) (\<lambda>r3.
    and_then (print_str ''product''
                (stored (stored (stored (name[62 := 0]) r1) r2) r3)) (\<lambda>_.
    and_then (read_reg32 host os fd 0xd1) (\<lambda>v32.
    and_then (print_u32 ''powered'' v32) (\<lambda>_.
    and_then (read_reg32 host os fd 0xd2) (\<lambda>v32.
    and_then (print_u32 ''uptime'' v32) (\<lambda>_.
    and_then (print_std_reg host os fd 0x8d ''temp1'' []) (\<lambda>_.
    and_then (print_std_reg host os fd 0x8e ''temp2'' []) (\<lambda>_.
    and_then (print_std_reg host os fd 0x90 ''fan rpm'' []) (\<lambda>_.
    and_then (print_std_reg host os fd 0x88 ''supply volts'' []) (\<lambda>_.
    and_then (print_std_reg host os fd 0xee ''total watts'' []) (\<lambda>_.
    and_then (rail_loop host os fd 0) (\<lambda>_.
    and_then (send_recv_cmd os fd 0x02 0x00 0x00 None 0) (\<lambda>_.
    result ())))))))))))))))))"

text \<open>\<^verbatim>\<open>snprintf(name, sizeof(name), "/dev/hidraw%d", i)\<close> for \<open>i\<close> below 100.\<close>

definition hidraw_path :: "nat \<Rightarrow> string" where
  "hidraw_path i =
    ''/dev/hidraw'' @
      (if i < 10 then [char_of (48 + i)]
       else [char_of (48 + i div 10), char_of (48 + i mod 10)])"

text \<open>
  \<^verbatim>\<open>for (i = 0; i < 16; i++)\<close>, entered at \<open>i\<close>: the descriptor found (or \<open>-1\<close>) and
  \<^verbatim>\<open>name\<close> afterwards. \<^verbatim>\<open>errno\<close> and \<^verbatim>\<open>had_eacces\<close> only select a message.
\<close>

function scan_devices :: "'d os \<Rightarrow> nat \<Rightarrow> u8 list \<Rightarrow> int \<times> u8 list" where
  "scan_devices os i name =
    (if i < 16 then
       (let path = hidraw_path i;
            name' = memcpy name (map of_char path @ [0]) (length path + 1);
            fd = try_open_device os path False
        in if fd \<noteq> - 1 then (fd, name') else scan_devices os (i + 1) name')
     else (- 1, name))"
  by pat_completeness auto
termination
  by (relation "measure (\<lambda>(os, i, name). 16 - i)") auto

text \<open>
  \<^verbatim>\<open>main(argc, argv)\<close>: \<open>argv\<close> holds the \<^verbatim>\<open>argc\<close> argument strings, \<open>name\<close> the
  initial contents of \<^verbatim>\<open>char name[63]\<close>. \<open>Inr c\<close> is \<^verbatim>\<open>return c\<close>.
\<close>

definition main ::
  "byte_order \<Rightarrow> 'd os \<Rightarrow> string list \<Rightarrow> u8 list \<Rightarrow> 'd world \<Rightarrow> (failure + int) \<times> 'd world"
where
  "main host os argv name w =
    (let argc = length argv
     in if argc > 1 \<and>
           ((case argv ! 1 of [] \<Rightarrow> False | c # _ \<Rightarrow> c = CHR ''-'') \<or> argc \<noteq> 2)
        then (Inr 1, w)
        else
          let (fd, name') =
                (if argc > 1 then (try_open_device os (argv ! 1) True, name)
                 else scan_devices os 0 name)
          in if fd = - 1 then (Inr 1, w)
             else and_then (session host os fd name') (\<lambda>_. result 0) w)"

subsection \<open>A simulated device\<close>

text \<open>
  For evaluating the model: a device that accepts every report, remembers the last one
  and answers with its \<open>op\<close> and \<open>reg\<close> bytes followed by a fixed payload.
\<close>

definition sim_os :: "hidraw_devinfo \<Rightarrow> u8 list \<Rightarrow> (u8 list) os" where
  "sim_os info payload =
    \<lparr>os_open = (\<lambda>name. 3),
     os_ioctl = (\<lambda>fd. (0, info)),
     os_write = (\<lambda>fd buf d. (65, buf)),
     os_read = (\<lambda>fd n d. (64, [d ! 1, d ! 2] @ payload, d))\<rparr>"

definition sim_info :: hidraw_devinfo where
  "sim_info = \<lparr>bustype = 3, vendor = 0x1b1c, product = 0x1c0a\<rparr>"

definition sim_world :: "(u8 list) world" where
  "sim_world = \<lparr>dev = replicate 65 0, trace = []\<rparr>"

text \<open>Three faulty devices: one out of step, one that refuses writes, one that reads short.\<close>

definition desync_os :: "(u8 list) os" where
  "desync_os = (sim_os sim_info [])\<lparr>os_read := (\<lambda>fd n d. (64, replicate 64 0xaa, d))\<rparr>"

definition failed_write_os :: "(u8 list) os" where
  "failed_write_os = (sim_os sim_info [])\<lparr>os_write := (\<lambda>fd buf d. (- 1, d))\<rparr>"

definition short_read_os :: "(u8 list) os" where
  "short_read_os =
    (sim_os sim_info [])\<lparr>os_read := (\<lambda>fd n d. (3, [0x03, 0x8d, 0x99] @ replicate 61 0, d))\<rparr>"

subsection \<open>What reaches the device\<close>

text \<open>
  A device that records: \<open>recording os\<close> behaves as \<open>os\<close> does, and keeps beside the
  state of \<open>os\<close> the list of the buffers that \<open>os_write\<close> has been called with, oldest
  first. A read records nothing.
\<close>

definition recording :: "'d os \<Rightarrow> ('d \<times> u8 list list) os" where
  "recording os =
    \<lparr>os_open = os_open os,
     os_ioctl = os_ioctl os,
     os_write = (\<lambda>fd buf (d, log).
        case os_write os fd buf d of (ret, d') \<Rightarrow> (ret, (d', log @ [buf]))),
     os_read = (\<lambda>fd n (d, log).
        case os_read os fd n d of (ret, b, d') \<Rightarrow> (ret, b, (d', log)))\<rparr>"



text \<open>
  An event without the values that depend on the device's answers: the command of a
  report, or the label and the arguments of a printed line.
\<close>

datatype action = Command u8 u8 u8 | Output string "u8 list"



text \<open>
  The rail ordering rule of the specification, as a check that reads a run from left to
  right. \<open>Idle sel\<close>: the last rail-select command selected rail \<open>sel\<close> (\<open>None\<close> before
  the first one). \<open>Awaiting k\<close>: a rail-scoped register (\<open>0x8b\<close>, \<open>0x8c\<close>, \<open>0x96\<close>) has
  been read while rail \<open>k\<close> was selected, and the line that prints its value is due. The
  check fails (\<open>None\<close>) when a rail-scoped register is read with no rail selected, when
  the value read is printed for another rail than the one selected, or when another
  command is sent before the value is printed. A run may end in any state: a session
  that stops after a read has printed nothing for it.
\<close>

datatype rail_state = Idle "u8 option" | Awaiting u8

fun rail_step :: "rail_state \<Rightarrow> action \<Rightarrow> rail_state option" where
  "rail_step (Idle sel) (Command op reg arg) =
    (if op = 0x02 \<and> reg = 0x00 then Some (Idle (Some arg))
     else if op = 0x03 \<and> (reg = 0x8b \<or> reg = 0x8c \<or> reg = 0x96) then
       (case sel of None \<Rightarrow> None | Some k \<Rightarrow> Some (Awaiting k))
     else Some (Idle sel))"
| "rail_step (Idle sel) (Output label args) = Some (Idle sel)"
| "rail_step (Awaiting k) (Output label args) =
    (if args = [k] then Some (Idle (Some k)) else None)"
| "rail_step (Awaiting k) (Command op reg arg) = None"

fun rail_run :: "rail_state \<Rightarrow> action list \<Rightarrow> rail_state option" where
  "rail_run s [] = Some s"
| "rail_run s (a # as) = (case rail_step s a of None \<Rightarrow> None | Some s' \<Rightarrow> rail_run s' as)"

definition rail_reads_selected :: "action list \<Rightarrow> bool" where
  "rail_reads_selected as = (rail_run (Idle None) as \<noteq> None)"


section \<open>Properties\<close>

subsection \<open>The numeric codec\<close>

lemma mkv_p_shift: "mkv_p v = sint v div 2 ^ 11"
  unfolding mkv_p_def
  by (simp add: sint_signed_drop_bit_eq sint_up_scast is_up drop_bit_eq_div)

lemma mkv_v_signed_take_bit: "mkv_v v = signed_take_bit 10 (uint v)"
  unfolding mkv_v_def
  apply (simp add: sint_signed_drop_bit_eq)
  apply (rule bit_eqI)
  apply (auto simp add: bit_simps bit_sint_iff min_def not_le)
  done

lemma sign_extend_signed_take_bit:
  fixes k :: int
  shows "signed_take_bit 10 k = sign_extend 11 (k mod 2 ^ 11)"
proof -
  define r where "r = k mod 2048"
  have r: "0 \<le> r" "r < 2048"
    by (simp_all add: r_def)
  have "signed_take_bit 10 k = (k + 1024) mod 2048 - 1024"
    by (simp add: signed_take_bit_eq_take_bit_shift take_bit_eq_mod)
  also have "(k + 1024) mod 2048 = (r + 1024) mod 2048"
    unfolding r_def by (simp add: mod_add_left_eq)
  also have "(r + 1024) mod 2048 - 1024 = (if 1024 \<le> r then r - 2048 else r)"
  proof (cases "1024 \<le> r")
    case True
    have "(r + 1024) mod 2048 = r - 1024"
      by (rule int_mod_pos_eq [where q = 1]) (use True r in simp_all)
    then show ?thesis
      using True by simp
  next
    case False
    then have "(r + 1024) mod 2048 = r + 1024"
      using r by simp
    then show ?thesis
      using False by simp
  qed
  finally show ?thesis
    by (simp add: sign_extend_def r_def)
qed

lemma uint16_bounds: "0 \<le> uint (v::u16) \<and> uint v < 65536"
  using uint_lt2p [of v] by simp

lemma sint16_cases: "sint (v::u16) = (if uint v < 32768 then uint v else uint v - 65536)"
proof -
  have u: "0 \<le> uint v" "uint v < 65536"
    using uint16_bounds [of v] by simp_all
  have s: "sint v = (uint v + 32768) mod 65536 - 32768"
    by (simp add: sint_uint signed_take_bit_eq_take_bit_shift take_bit_eq_mod)
  show ?thesis
  proof (cases "uint v < 32768")
    case True
    then have "(uint v + 32768) mod 65536 = uint v + 32768"
      using u by simp
    with s True show ?thesis by simp
  next
    case False
    have "(uint v + 32768) mod 65536 = uint v - 32768"
      by (rule int_mod_pos_eq [where q = 1]) (use False u in simp_all)
    with s False show ?thesis by simp
  qed
qed

lemma spec_exponent_shift: "spec_exponent v = sint v div 2 ^ 11"
proof -
  define q where "q = uint v div 2048"
  define r where "r = uint v mod 2048"
  have u: "0 \<le> uint v" "uint v < 65536"
    using uint16_bounds [of v] by simp_all
  have r: "0 \<le> r" "r < 2048"
    by (simp_all add: r_def)
  have uv: "uint v = 2048 * q + r"
    by (simp add: q_def r_def)
  have q: "0 \<le> q" "q < 32"
    using u uv r by linarith+
  have e: "spec_exponent v = (if 16 \<le> q then q - 32 else q)"
    using q by (simp add: spec_exponent_def sign_extend_def q_def)
  show ?thesis
  proof (cases "uint v < 32768")
    case True
    then have "q < 16"
      using uv r by linarith
    moreover have "sint v div 2 ^ 11 = q"
      using True by (simp add: sint16_cases q_def)
    ultimately show ?thesis
      using e by simp
  next
    case False
    then have "16 \<le> q"
      using uv r by linarith
    moreover have "(uint v - 65536) div 2048 = q - 32"
      by (rule int_div_pos_eq [where r = r]) (use uv r in simp_all)
    then have "sint v div 2 ^ 11 = q - 32"
      using False by (simp add: sint16_cases)
    ultimately show ?thesis
      using e by simp
  qed
qed

lemma mkv_p_spec: "mkv_p v = spec_exponent v"
  by (simp add: mkv_p_shift spec_exponent_shift)

lemma mkv_v_spec: "mkv_v v = spec_mantissa v"
  by (simp add: mkv_v_signed_take_bit sign_extend_signed_take_bit spec_mantissa_def)

text \<open>
  The ranges of the two fields. With them \<open>mkv v\<close> is an integer of at most eleven bits
  times a power of two between \<open>2 powi -16\<close> and \<open>2 powi 15\<close>: a number that a double
  holds exactly, so the double arithmetic of the source does not round.
\<close>

lemma mkv_exact:
  "- 1024 \<le> mkv_v v \<and> mkv_v v \<le> 1023 \<and> - 16 \<le> mkv_p v \<and> mkv_p v \<le> 15"
proof -
  define r where "r = uint v mod 2048"
  have r: "0 \<le> r" "r < 2048"
    by (simp_all add: r_def)
  have "spec_mantissa v = (if 1024 \<le> r then r - 2048 else r)"
    by (simp add: spec_mantissa_def sign_extend_def r_def)
  with r have "- 1024 \<le> spec_mantissa v \<and> spec_mantissa v \<le> 1023"
    by (cases "1024 \<le> r") simp_all
  moreover have "- 32768 \<le> sint v" "sint v \<le> 32767"
    using sint_ge [of v] sint_lt [of v] by simp_all
  then have "- 16 \<le> sint v div 2048 \<and> sint v div 2048 \<le> 15"
    by linarith
  ultimately show ?thesis
    by (simp add: mkv_v_spec mkv_p_shift)
qed

text \<open>The corners of the format: the least and the greatest mantissa and exponent.\<close>

lemma mkv_boundaries:
  "mkv_v 0x8400 = - 1024" "mkv_p 0x8400 = - 16" "mkv 0x8400 = - 1 / 64"
  "mkv_v 0x7bff = 1023" "mkv_p 0x7bff = 15" "mkv 0x7bff = 33521664"
  by (simp_all add: mkv_def mkv_v_def mkv_p_def)

text \<open>
  C1. For every 16-bit word \<open>raw\<close>, \<open>mkv raw\<close> is \<open>v * 2^p\<close>, where \<open>p\<close> is the value
  of bits 15..11 sign-extended from five bits, which is also the signed word shifted
  right arithmetically by 11, and \<open>v\<close> is the value of the low eleven bits sign-extended
  from eleven bits. \<open>mkv\<close> is a total function with no error result. The word \<open>0x0000\<close>
  decodes to \<open>0\<close>, and the word with mantissa 1 and exponent 0 decodes to \<open>1\<close>.
\<close>

theorem mkv_decodes_linear_format:
  "mkv raw = real_of_int (spec_mantissa raw) * 2 powi (spec_exponent raw)
   \<and> spec_exponent raw = sint raw div 2 ^ 11
   \<and> mkv 0x0000 = 0
   \<and> mkv 0x0001 = 1"
proof -
  have "mkv raw = real_of_int (spec_mantissa raw) * 2 powi (spec_exponent raw)"
    by (simp add: mkv_def mkv_v_spec mkv_p_spec)
  moreover have "mkv 0x0000 = 0"
    by (simp add: mkv_def mkv_v_def)
  moreover have "mkv 0x0001 = 1"
    by (simp add: mkv_def mkv_v_def mkv_p_def)
  ultimately show ?thesis
    by (simp add: spec_exponent_shift)
qed

text \<open>
  C8, as the specification states it: the word \<open>0x1199\<close> has mantissa 409 and exponent
  \<open>-15\<close>, and decodes to \<open>409 * 2^-15\<close> within \<open>1e-9\<close>. This is false: the top five bits
  of \<open>0x1199\<close> are \<open>00010\<close>, so the exponent is 2.
\<close>

theorem mkv_0x1199_not_minus_15:
  "\<not> (mkv_v 0x1199 = 409 \<and> mkv_p 0x1199 = - 15
       \<and> \<bar>mkv 0x1199 - 409 * 2 powi (- 15)\<bar> \<le> 1 / 10 ^ 9)"
  by (simp add: mkv_p_def)

text \<open>
  C8, amended: the word \<open>0x1199\<close> has mantissa \<open>0x199 = 409\<close> and exponent 2, and
  decodes to \<open>409 * 2^2 = 1636\<close> exactly.
\<close>

theorem mkv_0x1199:
  "mkv_v 0x1199 = 409 \<and> mkv_p 0x1199 = 2
   \<and> mkv 0x1199 = 409 * 2 powi 2 \<and> mkv 0x1199 = 1636"
  by (simp add: mkv_def mkv_v_def mkv_p_def)

subsection \<open>The report framer\<close>

lemma report_bytes:
  "(replicate 65 (0::u8))[1 := b0, 2 := b1, 3 := b2] = [0, b0, b1, b2] @ replicate 61 0"
  by (simp add: numeral_eq_Suc)

lemma send_recv_cmd_trace:
  "trace (snd (send_recv_cmd os fd b0 b1 b2 buf n w)) =
     trace w @ [Sent ([0, b0, b1, b2] @ replicate 61 0)]"
  unfolding send_recv_cmd_def report_bytes
  by (simp add: Let_def split: prod.splits)

text \<open>
  C5. For every command \<open>(op, reg, arg)\<close>, the buffer that \<open>send_recv_cmd\<close> calls
  \<^verbatim>\<open>write\<close> with is 65 bytes long: byte 0 is \<open>0x00\<close>, bytes 1 to 3 are \<open>op\<close>, \<open>reg\<close>
  and \<open>arg\<close>, and bytes 4 to 64 are \<open>0x00\<close>, whatever was sent before. The device is left
  in the state that \<open>os_write\<close>, called with exactly this buffer, puts it in (followed by
  the read, when the write returned 65), and a recording device has recorded exactly this
  buffer, once, also when the write fails.
\<close>

theorem send_recv_cmd_report:
  "trace (snd (send_recv_cmd os fd op reg arg buf n w)) =
     trace w @ [Sent ([0, op, reg, arg] @ replicate 61 0)]
   \<and> length ([0, op, reg, arg] @ replicate 61 (0::u8)) = 65
   \<and> dev (snd (send_recv_cmd os fd op reg arg buf n w)) =
       (case os_write os fd ([0, op, reg, arg] @ replicate 61 0) (dev w) of
          (wret, d1) \<Rightarrow> if wret \<noteq> 65 then d1 else snd (snd (os_read os fd 64 d1)))
   \<and> snd (dev (snd (send_recv_cmd (recording os') fd op reg arg buf n v))) =
       snd (dev v) @ [[0, op, reg, arg] @ replicate 61 0]"
proof -
  have "dev (snd (send_recv_cmd os fd op reg arg buf n w)) =
       (case os_write os fd ([0, op, reg, arg] @ replicate 61 0) (dev w) of
          (wret, d1) \<Rightarrow> if wret \<noteq> 65 then d1 else snd (snd (os_read os fd 64 d1)))"
    unfolding send_recv_cmd_def report_bytes
    by (simp add: Let_def split: prod.splits)
  moreover have "snd (dev (snd (send_recv_cmd (recording os') fd op reg arg buf n v))) =
       snd (dev v) @ [[0, op, reg, arg] @ replicate 61 0]"
    unfolding send_recv_cmd_def report_bytes recording_def
    by (cases "dev v") (simp add: Let_def split: prod.splits)
  ultimately show ?thesis
    by (simp add: send_recv_cmd_trace)
qed

theorem send_recv_cmd_report_witness:
  "trace (snd (send_recv_cmd (sim_os sim_info (replicate 62 0)) 3 0xfe 0x03 0x00 None 0
                 sim_world)) =
     [Sent ([0, 0xfe, 0x03, 0x00] @ replicate 61 0)]
   \<and> dev (snd (send_recv_cmd (sim_os sim_info (replicate 62 0)) 3 0xfe 0x03 0x00 None 0
                 sim_world)) = [0, 0xfe, 0x03, 0x00] @ replicate 61 0
   \<and> snd (dev (snd (send_recv_cmd (recording failed_write_os) 3 0xfe 0x03 0x00 None 0
                 \<lparr>dev = (replicate 65 0, []), trace = []\<rparr>))) =
       [[0, 0xfe, 0x03, 0x00] @ replicate 61 0]"
  using send_recv_cmd_report
    [where os = "sim_os sim_info (replicate 62 0)" and fd = 3 and op = "0xfe" and reg = "0x03"
       and arg = "0x00" and buf = None and n = 0 and w = sim_world
       and os' = failed_write_os and v = "\<lparr>dev = (replicate 65 0, []), trace = []\<rparr>"]
  by (simp add: sim_world_def sim_os_def)

text \<open>
  C3. When the write and the read both transfer their full size and the response is 64
  bytes long: if byte 0 of the response differs from \<open>op\<close> or byte 1 differs from \<open>reg\<close>,
  \<open>send_recv_cmd\<close> stops with the unexpected-response failure, which carries the two
  bytes received and the command sent; it returns to its caller exactly when both bytes
  match.
\<close>

theorem send_recv_cmd_mismatch:
  assumes "os_write os fd ([0, op, reg, arg] @ replicate 61 0) (dev w) = (65, d1)"
    and "os_read os fd 64 d1 = (64, resp, d2)"
    and "length resp = 64"
  shows "(resp ! 0 \<noteq> op \<or> resp ! 1 \<noteq> reg \<longrightarrow>
            fst (send_recv_cmd os fd op reg arg buf n w) =
              Inl (UnexpectedResponse (resp ! 0) (resp ! 1) op reg arg resp))
       \<and> ((\<exists>r. fst (send_recv_cmd os fd op reg arg buf n w) = Inr r)
            \<longleftrightarrow> (resp ! 0 = op \<and> resp ! 1 = reg))"
  using assms(1,2) unfolding send_recv_cmd_def report_bytes
  by (simp add: Let_def)

theorem send_recv_cmd_mismatch_witness:
  "fst (send_recv_cmd desync_os 3 0x03 0x8d 0x00 (Some [0, 0]) 2 sim_world) =
     Inl (UnexpectedResponse 0xaa 0xaa 0x03 0x8d 0x00 (replicate 64 0xaa))
   \<and> \<not> (\<exists>r. fst (send_recv_cmd desync_os 3 0x03 0x8d 0x00 (Some [0, 0]) 2 sim_world) = Inr r)"
proof -
  let ?report = "[0, 0x03, 0x8d, 0x00] @ replicate 61 (0::u8)"
  have w: "os_write desync_os 3 ?report (dev sim_world) = (65, ?report)"
    by (simp add: desync_os_def sim_os_def)
  have r: "os_read desync_os 3 64 ?report = (64, replicate 64 0xaa, ?report)"
    by (simp add: desync_os_def sim_os_def)
  have l: "length (replicate 64 (0xaa::u8)) = 64"
    by simp
  from send_recv_cmd_mismatch [OF w r l, of "Some [0, 0]" 2]
  show ?thesis
    by simp
qed

text \<open>
  C4. If \<^verbatim>\<open>write\<close> returns anything but 65, \<open>send_recv_cmd\<close> stops with the write
  failure and the device is in the state the write left it in: nothing was read. If the
  write returns 65 and \<^verbatim>\<open>read\<close> returns anything but 64, it stops with the read failure.
  In both cases the response bytes are not compared and nothing is copied.
\<close>

theorem send_recv_cmd_transport_error:
  "(os_write os fd ([0, op, reg, arg] @ replicate 61 0) (dev w) = (wret, d1) \<and> wret \<noteq> 65 \<longrightarrow>
      send_recv_cmd os fd op reg arg buf n w =
        (Inl (WriteFailed wret),
         w\<lparr>dev := d1, trace := trace w @ [Sent ([0, op, reg, arg] @ replicate 61 0)]\<rparr>))
   \<and> (os_write os fd ([0, op, reg, arg] @ replicate 61 0) (dev w) = (65, d1)
        \<and> os_read os fd 64 d1 = (rret, resp, d2) \<and> rret \<noteq> 64 \<longrightarrow>
      send_recv_cmd os fd op reg arg buf n w =
        (Inl (ReadFailed rret (if 0 < rret then take (nat rret) resp else [])),
         w\<lparr>dev := d2, trace := trace w @ [Sent ([0, op, reg, arg] @ replicate 61 0)]\<rparr>))"
  unfolding send_recv_cmd_def report_bytes
  by (simp add: Let_def)

theorem send_recv_cmd_transport_error_witness:
  "send_recv_cmd failed_write_os 3 0x03 0x8d 0x00 (Some [0, 0]) 2 sim_world =
     (Inl (WriteFailed (- 1)),
      \<lparr>dev = replicate 65 0, trace = [Sent ([0, 0x03, 0x8d, 0x00] @ replicate 61 0)]\<rparr>)
   \<and> fst (send_recv_cmd short_read_os 3 0x03 0x8d 0x00 (Some [0, 0]) 2 sim_world) =
     Inl (ReadFailed 3 [0x03, 0x8d, 0x99])"
proof -
  let ?report = "[0, 0x03, 0x8d, 0x00] @ replicate 61 (0::u8)"
  have w1: "os_write failed_write_os 3 ?report (dev sim_world) = (- 1, replicate 65 0)"
    by (simp add: failed_write_os_def sim_os_def sim_world_def)
  have w2: "os_write short_read_os 3 ?report (dev sim_world) = (65, ?report)"
    by (simp add: short_read_os_def sim_os_def)
  have r2: "os_read short_read_os 3 64 ?report =
              (3, [0x03, 0x8d, 0x99] @ replicate 61 0, ?report)"
    by (simp add: short_read_os_def sim_os_def)
  from w1 w2 r2
    send_recv_cmd_transport_error
      [of failed_write_os 3 "0x03" "0x8d" "0x00" sim_world "- 1" "replicate 65 0"
          "Some [0, 0]" 2]
    send_recv_cmd_transport_error
      [of short_read_os 3 "0x03" "0x8d" "0x00" sim_world _ ?report
          "Some [0, 0]" 2 3 "[0x03, 0x8d, 0x99] @ replicate 61 0" ?report]
  show ?thesis
    by (simp add: sim_world_def)
qed

text \<open>
  C6. On a successful exchange with a buffer \<open>b\<close> supplied, the buffer afterwards starts
  with \<open>min n 62\<close> bytes taken from the response from offset 2 on, and is unchanged
  behind them; bytes 0 and 1 of the response are not copied.
\<close>

theorem send_recv_cmd_payload:
  assumes "os_write os fd ([0, op, reg, arg] @ replicate 61 0) (dev w) = (65, d1)"
    and "os_read os fd 64 d1 = (64, resp, d2)"
    and "length resp = 64"
    and "resp ! 0 = op" and "resp ! 1 = reg"
  shows "fst (send_recv_cmd os fd op reg arg (Some b) n w) =
           Inr (Some (take (min n 62) (drop 2 resp) @ drop (min n 62) b))
       \<and> length (take (min n 62) (drop 2 resp)) = min n 62
       \<and> (\<forall>i < min n 62. take (min n 62) (drop 2 resp) ! i = resp ! (i + 2))"
proof -
  have "fst (send_recv_cmd os fd op reg arg (Some b) n w) =
           Inr (Some (take (min n 62) (drop 2 resp) @ drop (min n 62) b))"
    using assms(1,2,4,5) unfolding send_recv_cmd_def report_bytes
    by (simp add: Let_def memcpy_def min_def)
  moreover have "length (take (min n 62) (drop 2 resp)) = min n 62"
    using assms(3) by simp
  moreover have "\<forall>i < min n 62. take (min n 62) (drop 2 resp) ! i = resp ! (i + 2)"
    using assms(3) by (simp add: add.commute)
  ultimately show ?thesis
    by blast
qed

theorem send_recv_cmd_payload_witness:
  "fst (send_recv_cmd (sim_os sim_info ([0x99, 0x11] @ replicate 60 0x41)) 3 0x03 0x8d 0x00
          (Some [7, 7, 7, 7]) 3 sim_world) = Inr (Some [0x99, 0x11, 0x41, 7])"
proof -
  let ?report = "[0, 0x03, 0x8d, 0x00] @ replicate 61 (0::u8)"
  let ?os = "sim_os sim_info ([0x99, 0x11] @ replicate 60 0x41)"
  let ?resp = "[0x03, 0x8d] @ ([0x99, 0x11] @ replicate 60 (0x41::u8))"
  have w: "os_write ?os 3 ?report (dev sim_world) = (65, ?report)"
    by (simp add: sim_os_def)
  have r: "os_read ?os 3 64 ?report = (64, ?resp, ?report)"
    by (simp add: sim_os_def)
  have l: "length ?resp = 64"
    by simp
  have e0: "?resp ! 0 = 0x03" and e1: "?resp ! 1 = 0x8d"
    by simp_all
  from send_recv_cmd_payload [OF w r l e0 e1, of "[7, 7, 7, 7]" 3]
  show ?thesis
    by simp
qed

text \<open>
  A buffer of at most \<open>n\<close> bytes is overwritten whole, so what it held before does not
  matter: this is the case of the uninitialised integers of \<open>read_reg16\<close> and
  \<open>read_reg32\<close>.
\<close>

lemma memcpy_overwrites: "length dst \<le> n \<Longrightarrow> memcpy dst src n = take n src"
  by (simp add: memcpy_def)

text \<open>With \<^verbatim>\<open>NULL\<close> for \<^verbatim>\<open>buf\<close>, or a size of 0, nothing is copied.\<close>

lemma send_recv_cmd_no_copy:
  assumes "fst (send_recv_cmd os fd op reg arg buf n w) = Inr r"
    and "buf = None \<or> n = 0"
  shows "r = buf"
  using assms unfolding send_recv_cmd_def
  by (auto simp add: Let_def split: prod.splits if_splits)

subsection \<open>Register access and the byte order of the host\<close>

lemma send_recv_cmd_success:
  assumes "os_write os fd ([0, op, reg, arg] @ replicate 61 0) (dev w) = (65, d1)"
    and "os_read os fd 64 d1 = (64, resp, d2)"
    and "resp ! 0 = op" and "resp ! 1 = reg"
  shows "send_recv_cmd os fd op reg arg buf n w =
           (Inr (if n = 0 then buf else map_option (\<lambda>b. memcpy b (drop 2 resp) (min n 62)) buf),
            w\<lparr>dev := d2, trace := trace w @ [Sent ([0, op, reg, arg] @ replicate 61 0)]\<rparr>)"
  using assms unfolding send_recv_cmd_def report_bytes
  by (cases buf) (simp_all add: Let_def min_def)

lemma read_reg16_value:
  assumes "os_write os fd ([0, 0x03, reg, 0x00] @ replicate 61 0) (dev w) = (65, d1)"
    and "os_read os fd 64 d1 = (64, resp, d2)"
    and "length resp = 64"
    and "resp ! 0 = 0x03" and "resp ! 1 = reg"
  shows "fst (read_reg16 host os fd reg w) = Inr (load_uint host [resp ! 2, resp ! 3])"
proof -
  have "take 2 (drop 2 resp) = [resp ! 2, resp ! 3]"
    using assms(3) by (simp add: list_eq_iff_nth_eq nth_Cons' numeral_eq_Suc less_Suc_eq)
  then show ?thesis
    unfolding read_reg16_def
    by (simp add: and_then_def send_recv_cmd_success [OF assms(1,2,4,5)]
        memcpy_def stored_def result_def)
qed

text \<open>The value of a 16-bit integer whose two bytes are \<open>a\<close>, \<open>b\<close> in memory order.\<close>

lemma load_uint_16:
  "unat (load_uint LittleEndian [a, b] :: u16) = unat a + 256 * unat b"
  "unat (load_uint BigEndian [a, b] :: u16) = 256 * unat a + unat b"
proof -
  have a: "unat a < 256" and b: "unat b < 256"
    using unsigned_less [of a, where ?'a = nat] unsigned_less [of b, where ?'a = nat]
    by simp_all
  show "unat (load_uint LittleEndian [a, b] :: u16) = unat a + 256 * unat b"
    using a b by (simp add: load_uint_def unat_word_ariths unsigned_ucast_eq take_bit_nat_eq_self)
  show "unat (load_uint BigEndian [a, b] :: u16) = 256 * unat a + unat b"
    using a b by (simp add: load_uint_def unat_word_ariths unsigned_ucast_eq take_bit_nat_eq_self)
qed

text \<open>
  C2 claims that \<open>read_reg16\<close> returns \<open>payload[0] + 256 * payload[1]\<close> on every
  host. The source copies the two payload bytes into a \<^verbatim>\<open>uint16_t\<close> and leaves the
  conversion as \<^verbatim>\<open>// FIXME: big endian host\<close>: on a big-endian host the payload
  \<open>01 00\<close> is read as \<open>0x0100\<close>, on a little-endian host as \<open>0x0001\<close>.
\<close>

theorem read_reg16_big_endian:
  "fst (read_reg16 BigEndian (sim_os sim_info ([0x01, 0x00] @ replicate 60 0)) 3 0x8d sim_world)
     = Inr 0x0100
   \<and> fst (read_reg16 LittleEndian (sim_os sim_info ([0x01, 0x00] @ replicate 60 0)) 3 0x8d sim_world)
     = Inr 0x0001"
proof -
  let ?report = "[0, 0x03, 0x8d, 0x00] @ replicate 61 (0::u8)"
  let ?os = "sim_os sim_info ([0x01, 0x00] @ replicate 60 0)"
  let ?resp = "[0x03, 0x8d] @ ([0x01, 0x00] @ replicate 60 (0::u8))"
  have w: "os_write ?os 3 ?report (dev sim_world) = (65, ?report)"
    by (simp add: sim_os_def)
  have r: "os_read ?os 3 64 ?report = (64, ?resp, ?report)"
    by (simp add: sim_os_def)
  have l: "length ?resp = 64"
    by simp
  have e0: "?resp ! 0 = 0x03" and e1: "?resp ! 1 = 0x8d"
    by simp_all
  from read_reg16_value [OF w r l e0 e1, of BigEndian]
    read_reg16_value [OF w r l e0 e1, of LittleEndian]
  show ?thesis
    by (simp add: load_uint_def)
qed

subsection \<open>Device gating\<close>

lemma sint_eq_uint_iff:
  fixes p x :: "16 word"
  assumes "uint x < 32768"
  shows "(sint p = uint x) = (p = x)"
proof (cases "uint p < 32768")
  case True
  then show ?thesis
    by (simp add: sint16_cases word_uint_eq_iff)
next
  case False
  then have "sint p < 0"
    using uint16_bounds [of p] by (simp add: sint16_cases)
  with uint_nonnegative [of x] have "sint p \<noteq> uint x"
    by linarith
  moreover have "p \<noteq> x"
    using False assms by auto
  ultimately show ?thesis
    by simp
qed

lemma find_product_products:
  "find_product p products =
     (p \<in> {0x1c0a, 0x1c0b, 0x1c0c, 0x1c0d, 0x1c04, 0x1c05, 0x1c06, 0x1c07, 0x1c08, 0x1c1e})"
proof -
  have "find_product p xs = (p \<in> set xs)" if "\<forall>x \<in> set xs. uint x < 32768" for xs
    using that by (induction xs) (auto simp add: sint_eq_uint_iff)
  from this [of products] show ?thesis
    by (simp add: products_def)
qed

lemma vendor_check: "(sint (v::16 word) \<noteq> 0x1b1c) = (v \<noteq> 0x1b1c)"
  using sint_eq_uint_iff [of "0x1b1c" v] by simp

lemma scan_devices_none:
  assumes "\<forall>j. i \<le> j \<and> j < 16 \<longrightarrow> try_open_device os (hidraw_path j) False = - 1"
  shows "fst (scan_devices os i name) = - 1"
  using assms
proof (induction os i name rule: scan_devices.induct)
  case (1 os i name)
  show ?case
  proof (cases "i < 16")
    case True
    with 1 show ?thesis
      by (simp add: Let_def)
  next
    case False
    then show ?thesis
      by simp
  qed
qed

text \<open>
  C9. A device that can be opened and reports its identifiers is accepted exactly when
  its vendor identifier is \<open>0x1b1c\<close> and its product identifier is one of the ten
  listed. When the device named on the command line is rejected, or all sixteen scanned
  nodes are, \<open>main\<close> returns 1 and has sent nothing. Vendor \<open>0x1b1c\<close> with product
  \<open>0x1c0a\<close> is accepted; vendor \<open>0x1b1c\<close> with product \<open>0xffff\<close> and vendor
  \<open>0x0000\<close> with product \<open>0x1c0a\<close> are rejected.
\<close>

theorem try_open_device_gate:
  assumes "os_open os name \<noteq> - 1"
    and "os_ioctl os (os_open os name) = (0, info)"
  shows "(try_open_device os name report_errors \<noteq> - 1) =
           (vendor info = 0x1b1c
            \<and> product info \<in>
                {0x1c0a, 0x1c0b, 0x1c0c, 0x1c0d, 0x1c04, 0x1c05, 0x1c06, 0x1c07, 0x1c08, 0x1c1e})
       \<and> (try_open_device os name True = - 1 \<longrightarrow>
            main host os [prog, name] buf w = (Inr 1, w))
       \<and> ((\<forall>j < 16. try_open_device os (hidraw_path j) False = - 1) \<longrightarrow>
            main host os [prog] buf w = (Inr 1, w))
       \<and> try_open_device (sim_os \<lparr>bustype = 3, vendor = 0x1b1c, product = 0x1c0a\<rparr> []) name
            report_errors = 3
       \<and> try_open_device (sim_os \<lparr>bustype = 3, vendor = 0x1b1c, product = 0xffff\<rparr> []) name
            report_errors = - 1
       \<and> try_open_device (sim_os \<lparr>bustype = 3, vendor = 0x0000, product = 0x1c0a\<rparr> []) name
            report_errors = - 1"
proof -
  have "(try_open_device os name report_errors \<noteq> - 1) =
           (vendor info = 0x1b1c
            \<and> product info \<in>
                {0x1c0a, 0x1c0b, 0x1c0c, 0x1c0d, 0x1c04, 0x1c05, 0x1c06, 0x1c07, 0x1c08, 0x1c1e})"
    using assms
    by (simp add: try_open_device_def Let_def vendor_check find_product_products)
  moreover have "try_open_device os name True = - 1 \<longrightarrow>
      main host os [prog, name] buf w = (Inr 1, w)"
    by (simp add: main_def Let_def)
  moreover have "(\<forall>j < 16. try_open_device os (hidraw_path j) False = - 1) \<longrightarrow>
      main host os [prog] buf w = (Inr 1, w)"
    using scan_devices_none [of 0 os buf]
    by (simp add: main_def Let_def split: prod.splits)
  moreover have
    "try_open_device (sim_os \<lparr>bustype = 3, vendor = 0x1b1c, product = 0x1c0a\<rparr> []) name
       report_errors = 3"
    "try_open_device (sim_os \<lparr>bustype = 3, vendor = 0x1b1c, product = 0xffff\<rparr> []) name
       report_errors = - 1"
    "try_open_device (sim_os \<lparr>bustype = 3, vendor = 0x0000, product = 0x1c0a\<rparr> []) name
       report_errors = - 1"
    by (simp_all add: try_open_device_def sim_os_def Let_def vendor_check find_product_products)
  ultimately show ?thesis
    by blast
qed

theorem try_open_device_gate_witness:
  "try_open_device (sim_os sim_info []) ''/dev/hidraw0'' True \<noteq> - 1
   \<and> main LittleEndian (sim_os \<lparr>bustype = 3, vendor = 0x1b1c, product = 0xffff\<rparr> [])
       [''corsairmi'', ''/dev/hidraw0''] (replicate 63 0) sim_world = (Inr 1, sim_world)"
proof -
  have o: "os_open (sim_os sim_info []) ''/dev/hidraw0'' \<noteq> - 1"
    by (simp add: sim_os_def)
  have i: "os_ioctl (sim_os sim_info []) (os_open (sim_os sim_info []) ''/dev/hidraw0'') =
             (0, sim_info)"
    by (simp add: sim_os_def)
  let ?bad = "sim_os \<lparr>bustype = 3, vendor = 0x1b1c, product = 0xffff\<rparr> []"
  have o': "os_open ?bad ''/dev/hidraw0'' \<noteq> - 1"
    by (simp add: sim_os_def)
  have i': "os_ioctl ?bad (os_open ?bad ''/dev/hidraw0'') =
             (0, \<lparr>bustype = 3, vendor = 0x1b1c, product = 0xffff\<rparr>)"
    by (simp add: sim_os_def)
  from try_open_device_gate [OF o i, of True]
    try_open_device_gate [OF o' i', of True LittleEndian "''corsairmi''" "replicate 63 0" sim_world]
  show ?thesis
    by (simp add: sim_info_def)
qed

subsection \<open>The session: strings\<close>

lemma rail_loop_unroll:
  "rail_loop host os fd 0 =
     and_then (rail_body host os fd 0) (\<lambda>_.
     and_then (rail_body host os fd 1) (\<lambda>_.
     and_then (rail_body host os fd 2) (\<lambda>_. result ())))"
proof
  fix w
  have 3: "rail_loop host os fd 3 w3 = (Inr (), w3)" for w3
    by (subst rail_loop.simps) simp
  have 2: "rail_loop host os fd 2 w2 = and_then (rail_body host os fd 2) (\<lambda>_. result ()) w2" for w2
    by (subst rail_loop.simps) (simp add: 3 and_then_def result_def split: prod.splits sum.splits)
  have 1: "rail_loop host os fd 1 w1 =
      and_then (rail_body host os fd 1) (\<lambda>_.
      and_then (rail_body host os fd 2) (\<lambda>_. result ())) w1" for w1
    by (subst rail_loop.simps) (simp add: 2 and_then_def split: prod.splits sum.splits)
  show "rail_loop host os fd 0 w =
     and_then (rail_body host os fd 0) (\<lambda>_.
     and_then (rail_body host os fd 1) (\<lambda>_.
     and_then (rail_body host os fd 2) (\<lambda>_. result ()))) w"
    by (subst rail_loop.simps) (simp add: 1 and_then_def split: prod.splits sum.splits)
qed

lemma and_then_no_overrun:
  assumes "fst (m w) \<noteq> Inl Unterminated"
    and "\<And>a w1. m w = (Inr a, w1) \<Longrightarrow> fst (f a w1) \<noteq> Inl Unterminated"
  shows "fst (and_then m f w) \<noteq> Inl Unterminated"
  using assms unfolding and_then_def
  by (auto split: prod.splits sum.splits)

lemma send_recv_cmd_no_overrun:
  "fst (send_recv_cmd os fd b0 b1 b2 buf n w) \<noteq> Inl Unterminated"
  unfolding send_recv_cmd_def
  by (simp add: Let_def split: prod.splits)

lemma result_no_overrun: "fst (result a w) \<noteq> Inl Unterminated"
  by (simp add: result_def)

lemma print_line_no_overrun: "fst (print_line l w) \<noteq> Inl Unterminated"
  by (simp add: print_line_def)

lemma read_reg16_no_overrun: "fst (read_reg16 host os fd reg w) \<noteq> Inl Unterminated"
  unfolding read_reg16_def
  by (intro and_then_no_overrun send_recv_cmd_no_overrun result_no_overrun)

lemma read_reg32_no_overrun: "fst (read_reg32 host os fd reg w) \<noteq> Inl Unterminated"
  unfolding read_reg32_def
  by (intro and_then_no_overrun send_recv_cmd_no_overrun result_no_overrun)

lemma print_u32_no_overrun: "fst (print_u32 l v w) \<noteq> Inl Unterminated"
  by (simp add: print_u32_def print_line_no_overrun)

lemma print_std_reg_no_overrun:
  "fst (print_std_reg host os fd reg fmt args w) \<noteq> Inl Unterminated"
  unfolding print_std_reg_def
  by (intro and_then_no_overrun read_reg16_no_overrun print_line_no_overrun)

lemma rail_body_no_overrun: "fst (rail_body host os fd osel w) \<noteq> Inl Unterminated"
  unfolding rail_body_def
  by (intro and_then_no_overrun send_recv_cmd_no_overrun print_std_reg_no_overrun)

lemma rail_loop_no_overrun: "fst (rail_loop host os fd 0 w) \<noteq> Inl Unterminated"
  unfolding rail_loop_unroll
  by (intro and_then_no_overrun rail_body_no_overrun result_no_overrun)

text \<open>A 63-byte array whose last byte is zero holds a terminated string.\<close>

lemma c_string_terminated:
  assumes "length b = 63" and "b ! 62 = 0"
  shows "\<exists>s. c_string b = Some s \<and> length s \<le> 62"
proof -
  let ?P = "\<lambda>c::u8. c \<noteq> 0"
  have in_set: "0 \<in> set b"
    using nth_mem [of 62 b] assms by simp
  have "length (takeWhile ?P b) \<noteq> 63"
  proof
    assume "length (takeWhile ?P b) = 63"
    then have "takeWhile ?P b = b"
      using assms(1) takeWhile_eq_take [of ?P b] by simp
    then have "\<forall>x \<in> set b. x \<noteq> 0"
      by (simp add: takeWhile_eq_all_conv)
    with in_set show False
      by blast
  qed
  moreover have "length (takeWhile ?P b) \<le> 63"
    using length_takeWhile_le [of ?P b] assms(1) by simp
  ultimately have "length (takeWhile ?P b) \<le> 62"
    by linarith
  with in_set show ?thesis
    by (simp add: c_string_def)
qed

lemma print_str_no_overrun:
  assumes "length b = 63" and "b ! 62 = 0"
  shows "fst (print_str label b w) \<noteq> Inl Unterminated"
  using c_string_terminated [OF assms]
  by (auto simp add: print_str_def print_line_def)

lemma send_recv_cmd_keeps_terminator:
  assumes "\<forall>fd d. length (fst (snd (os_read os fd 64 d))) = 64"
    and "send_recv_cmd os fd b0 b1 b2 (Some b) 62 w = (Inr r, w1)"
    and "length b = 63" and "b ! 62 = 0"
  shows "length (stored b r) = 63 \<and> stored b r ! 62 = 0"
proof -
  obtain ret buf_r d2 where rd: "os_read os fd 64 (snd (os_write os fd ([0, b0, b1, b2] @ replicate 61 0) (dev w))) = (ret, buf_r, d2)"
    by (metis prod_cases3)
  have len: "length buf_r = 64"
    using assms(1) [rule_format, of fd "snd (os_write os fd ([0, b0, b1, b2] @ replicate 61 0) (dev w))"] rd
    by simp
  have "r = Some (memcpy b (drop 2 buf_r) 62)"
    using assms(2) rd unfolding send_recv_cmd_def report_bytes
    by (auto simp add: Let_def split: prod.splits if_splits)
  then show ?thesis
    using len assms(3,4) by (simp add: stored_def memcpy_def nth_append)
qed

text \<open>
  C10. \<open>main\<close> sets the last byte of the 63-byte array \<open>name\<close> to zero and asks for 62
  bytes each time, so whatever the array held before and whatever the device answers,
  each of the three strings printed ends inside the array: the session never reaches the
  overrun. The hypothesis on \<open>os_read\<close> says that \<^verbatim>\<open>buf_r\<close> is a 64-byte array.
\<close>

theorem session_strings_terminated:
  assumes "length name = 63"
    and "\<forall>fd d. length (fst (snd (os_read os fd 64 d))) = 64"
  shows "fst (session host os fd name w) \<noteq> Inl Unterminated"
proof -
  let ?n0 = "name[62 := 0]"
  have n0: "length ?n0 = 63" "?n0 ! 62 = 0"
    using assms(1) by simp_all
  show ?thesis
    unfolding session_def read_reg_def
  proof (intro and_then_no_overrun send_recv_cmd_no_overrun read_reg32_no_overrun
      print_u32_no_overrun print_std_reg_no_overrun rail_loop_no_overrun result_no_overrun)
    fix r1 w1
    assume s1: "send_recv_cmd os fd 0xfe 0x03 0x00 (Some ?n0) 62 w = (Inr r1, w1)"
    note n1 = send_recv_cmd_keeps_terminator [OF assms(2) s1 n0]
    show "fst (print_str ''name'' (stored ?n0 r1) w1) \<noteq> Inl Unterminated"
      using n1 by (simp add: print_str_no_overrun)
    fix u1 :: unit and w2 r2 w3
    assume s2: "send_recv_cmd os fd 0x03 0x99 0x00 (Some (stored ?n0 r1)) 62 w2 = (Inr r2, w3)"
    note n2 = send_recv_cmd_keeps_terminator [OF assms(2) s2 n1 [THEN conjunct1] n1 [THEN conjunct2]]
    show "fst (print_str ''vendor'' (stored (stored ?n0 r1) r2) w3) \<noteq> Inl Unterminated"
      using n2 by (simp add: print_str_no_overrun)
    fix u2 :: unit and w4 r3 w5
    assume s3: "send_recv_cmd os fd 0x03 0x9a 0x00 (Some (stored (stored ?n0 r1) r2)) 62 w4 = (Inr r3, w5)"
    note n3 = send_recv_cmd_keeps_terminator [OF assms(2) s3 n2 [THEN conjunct1] n2 [THEN conjunct2]]
    show "fst (print_str ''product'' (stored (stored (stored ?n0 r1) r2) r3) w5) \<noteq> Inl Unterminated"
      using n3 by (simp add: print_str_no_overrun)
  qed
qed

theorem session_strings_terminated_witness:
  "fst (session LittleEndian (sim_os sim_info (replicate 62 0x41)) 3 (replicate 63 0x41)
          sim_world) \<noteq> Inl Unterminated"
proof -
  have l: "length (replicate 63 (0x41::u8)) = 63"
    by simp
  have a: "\<forall>fd d. length (fst (snd (os_read (sim_os sim_info (replicate 62 0x41)) fd 64 d))) = 64"
    by (simp add: sim_os_def)
  from session_strings_terminated [OF l a]
  show ?thesis .
qed

subsection \<open>The session: order of commands\<close>





















text \<open>
  The check is not trivially true: it rejects a rail read with no rail selected, a value
  printed for another rail than the one selected, and a rail-select between a read and
  its line; it accepts a run that stops after a read.
\<close>

lemma rail_reads_selected_rejects:
  "\<not> rail_reads_selected [Command 0x03 0x8b 0x00, Output ''output%u volts'' [0]]"
  "\<not> rail_reads_selected
       [Command 0x02 0x00 1, Command 0x03 0x8b 0x00, Output ''output%u volts'' [0]]"
  "\<not> rail_reads_selected
       [Command 0x02 0x00 1, Command 0x03 0x8b 0x00, Command 0x02 0x00 0,
        Output ''output%u volts'' [0]]"
  "rail_reads_selected
       [Command 0x02 0x00 1, Command 0x03 0x8b 0x00, Output ''output%u volts'' [1]]"
  "rail_reads_selected [Command 0x02 0x00 1, Command 0x03 0x8b 0x00]"
  by (simp_all add: rail_reads_selected_def)




end
